theory Spec2Isabelle
  imports Complex_Main "HOL-Library.AList"
begin

section \<open>JavaScript values and the services of the browser\<close>

text \<open>
  The program is a browser application written in TypeScript. A JavaScript string is
  modelled as a \<open>string\<close>, one \<open>char\<close> for one code unit below 256 (strings with
  other code units are outside the model); a JavaScript number
  is modelled as a rational: the program takes its numbers from \<open>Date.now()\<close>,
  \<open>Math.random()\<close> and the form fields and only compares, adds, multiplies and floors
  them, which is exact on the integers the form supplies. \<open>NaN\<close> and the infinities are
  not modelled. A value of type \<open>any\<close> (the payload of a log entry) is a \<open>jsval\<close>.
\<close>

datatype jsval =
    JUndefined
  | JNum rat
  | JStr string
  | JBool bool
  | JArr "jsval list"
  | JObj "(string \<times> jsval) list"

datatype level = Info | Warn | Error | Debug

record LogEvent =
  log_id :: string
  log_timestamp :: rat
  log_level :: level
  message :: string
  data :: jsval
  source :: "string option"

record ClickData =
  click_id :: string
  click_timestamp :: rat
  userAgent :: string
  referrer :: string
  ip :: string
  location :: "string option"

record ShortenedUrl =
  url_id :: string
  originalUrl :: string
  shortCode :: string
  createdAt :: rat
  expiresAt :: rat
  validityMinutes :: rat
  clicks :: "ClickData list"
  isActive :: bool

record UrlFormData =
  form_originalUrl :: string
  customShortCode :: string
  form_validityMinutes :: rat

text \<open>
  The library functions the program calls and whose code is not part of it are the
  fields of a \<open>platform\<close>: whether \<open>new URL(s)\<close> succeeds, \<open>Number.toString(36)\<close>,
  \<open>JSON.stringify\<close> and \<open>JSON.parse\<close> at the two types the program stores (\<open>None\<close> when
  \<open>JSON.parse\<close> throws), whether \<open>localStorage.setItem\<close> accepts a write given the present
  content (it throws when the quota is exceeded), and the requester's context.
  \<open>parseInt(s)\<close> is an integer, or \<open>NaN\<close>, here \<open>None\<close>.
\<close>

record platform =
  urlParses :: "string \<Rightarrow> bool"
  toString36 :: "rat \<Rightarrow> string"
  stringifyLogs :: "LogEvent list \<Rightarrow> string"
  parseLogs :: "string \<Rightarrow> LogEvent list option"
  stringifyUrls :: "ShortenedUrl list \<Rightarrow> string"
  parseUrls :: "string \<Rightarrow> ShortenedUrl list option"
  parseInt :: "string \<Rightarrow> int option"
  storageAccepts :: "(string \<rightharpoonup> string) \<Rightarrow> string \<Rightarrow> string \<Rightarrow> bool"
  navigator_userAgent :: string
  document_referrer :: string

text \<open>
  The mutable state outside the React components: the log sequence of the \<open>logger\<close>
  singleton, the content of \<open>localStorage\<close>, and the values that the coming calls of
  \<open>Date.now()\<close> and \<open>Math.random()\<close> return, in order.
\<close>

record world =
  logs :: "LogEvent list"
  localStorage :: "string \<rightharpoonup> string"
  clock :: "nat \<Rightarrow> rat"
  random :: "nat \<Rightarrow> rat"

definition Date_now :: "world \<Rightarrow> rat \<times> world" where
  "Date_now w = (clock w 0, w\<lparr>clock := \<lambda>n. clock w (Suc n)\<rparr>)"

definition Math_random :: "world \<Rightarrow> rat \<times> world" where
  "Math_random w = (random w 0, w\<lparr>random := \<lambda>n. random w (Suc n)\<rparr>)"

definition Math_floor :: "rat \<Rightarrow> int" where
  "Math_floor x = \<lfloor>x\<rfloor>"

text \<open>\<open>localStorage.setItem\<close>: \<open>None\<close> when it throws.\<close>

definition setItem :: "platform \<Rightarrow> string \<Rightarrow> string \<Rightarrow> world \<Rightarrow> world option" where
  "setItem P k v w =
     (if storageAccepts P (localStorage w) k v
      then Some (w\<lparr>localStorage := (localStorage w)(k \<mapsto> v)\<rparr>)
      else None)"

definition getItem :: "string \<Rightarrow> world \<Rightarrow> string option" where
  "getItem k w = localStorage w k"

definition removeItem :: "string \<Rightarrow> world \<Rightarrow> world" where
  "removeItem k w = w\<lparr>localStorage := (localStorage w)(k := None)\<rparr>"

text \<open>\<open>s.charAt(i)\<close> is the empty string out of range; \<open>s.substr(from, len)\<close>.\<close>

definition charAt :: "string \<Rightarrow> int \<Rightarrow> string" where
  "charAt s i = (if 0 \<le> i \<and> i < int (length s) then [s ! nat i] else [])"

definition substr :: "string \<Rightarrow> nat \<Rightarrow> nat \<Rightarrow> string" where
  "substr s from len = take len (drop from s)"

text \<open>\<open>s.trim()\<close> removes white space and line terminators at both ends.\<close>

definition is_ws :: "char \<Rightarrow> bool" where
  "is_ws c = (of_char c \<in> {9, 10, 11, 12, 13, 32, 160 :: nat})"

definition trim :: "string \<Rightarrow> string" where
  "trim s = rev (dropWhile is_ws (rev (dropWhile is_ws s)))"

text \<open>Decimal rendering of an integer, as a template literal does.\<close>

fun show_nat :: "nat \<Rightarrow> string" where
  "show_nat n =
     (if n < 10 then [char_of (48 + n)]
      else show_nat (n div 10) @ [char_of (48 + n mod 10)])"

declare show_nat.simps [simp del]

definition show_int :: "int \<Rightarrow> string" where
  "show_int i = (if i < 0 then CHR ''-'' # show_nat (nat (- i)) else show_nat (nat i))"

section \<open>The event log (\<open>utils/logger.ts\<close>)\<close>

definition maxLogs :: nat where
  "maxLogs = 1000"

definition generateId :: "platform \<Rightarrow> world \<Rightarrow> string \<times> world" where
  "generateId P w = (let (r, w1) = Math_random w in (substr (toString36 P r) 2 9, w1))"

definition saveLogs :: "platform \<Rightarrow> world \<Rightarrow> world" where
  "saveLogs P w =
     (case setItem P ''app-logs'' (stringifyLogs P (logs w)) w of
        Some w1 \<Rightarrow> w1
      | None \<Rightarrow> w)"

definition addLog ::
  "platform \<Rightarrow> level \<Rightarrow> string \<Rightarrow> jsval \<Rightarrow> string option \<Rightarrow> world \<Rightarrow> world" where
  "addLog P lvl msg dat src w =
     (let (i, w1) = generateId P w;
          (t, w2) = Date_now w1;
          logEvent = \<lparr>log_id = i, log_timestamp = t, log_level = lvl, message = msg,
                      data = dat, source = src\<rparr>;
          unshifted = logEvent # logs w2;
          kept = (if length unshifted > maxLogs then take maxLogs unshifted else unshifted)
      in saveLogs P (w2\<lparr>logs := kept\<rparr>))"

definition loadLogs :: "platform \<Rightarrow> world \<Rightarrow> world" where
  "loadLogs P w =
     (case getItem ''app-logs'' w of
        None \<Rightarrow> w
      | Some storedLogs \<Rightarrow>
          if storedLogs = [] then w
          else (case parseLogs P storedLogs of
                  Some parsed \<Rightarrow> w\<lparr>logs := parsed\<rparr>
                | None \<Rightarrow> w\<lparr>logs := []\<rparr>))"

definition logger_info :: "platform \<Rightarrow> string \<Rightarrow> jsval \<Rightarrow> string \<Rightarrow> world \<Rightarrow> world" where
  "logger_info P msg dat src w = addLog P Info msg dat (Some src) w"

definition logger_warn :: "platform \<Rightarrow> string \<Rightarrow> jsval \<Rightarrow> string \<Rightarrow> world \<Rightarrow> world" where
  "logger_warn P msg dat src w = addLog P Warn msg dat (Some src) w"

definition logger_error :: "platform \<Rightarrow> string \<Rightarrow> jsval \<Rightarrow> string \<Rightarrow> world \<Rightarrow> world" where
  "logger_error P msg dat src w = addLog P Error msg dat (Some src) w"

definition clearLogs :: "world \<Rightarrow> world" where
  "clearLogs w = removeItem ''app-logs'' (w\<lparr>logs := []\<rparr>)"

section \<open>Identifier utilities (\<open>utils/urlUtils.ts\<close>)\<close>

definition validateUrl :: "platform \<Rightarrow> string \<Rightarrow> bool" where
  "validateUrl P url = urlParses P url"

text \<open>
  The character class \<open>[a-zA-Z0-9]\<close> is three ranges of code units; the regular
  expression \<open>/^[a-zA-Z0-9]+$/\<close> has no flag, so it matches exactly the non-empty strings
  all of whose characters are in the class.
\<close>

definition in_range :: "char \<Rightarrow> char \<Rightarrow> char \<Rightarrow> bool" where
  "in_range lo hi c = ((of_char lo :: nat) \<le> of_char c \<and> (of_char c :: nat) \<le> of_char hi)"

definition alnum_class :: "char \<Rightarrow> bool" where
  "alnum_class c =
     (in_range CHR ''a'' CHR ''z'' c \<or> in_range CHR ''A'' CHR ''Z'' c \<or> in_range CHR ''0'' CHR ''9'' c)"

definition alphanumericRegex_test :: "string \<Rightarrow> bool" where
  "alphanumericRegex_test s = (s \<noteq> [] \<and> list_all alnum_class s)"

definition validateShortCode :: "string \<Rightarrow> bool" where
  "validateShortCode code =
     (alphanumericRegex_test code \<and> length code \<ge> 3 \<and> length code \<le> 20)"

definition chars :: string where
  "chars = ''abcdefghijklmnopqrstuvwxyzABCDEFGHIJKLMNOPQRSTUVWXYZ0123456789''"

text \<open>The loop \<open>for (let i = 0; i < 6; i++)\<close> of \<open>generateRandomShortCode\<close>.\<close>

function code_loop :: "nat \<Rightarrow> string \<Rightarrow> world \<Rightarrow> string \<times> world" where
  "code_loop i result w =
     (if i < 6
      then (let (r, w1) = Math_random w
            in code_loop (i + 1)
                 (result @ charAt chars (Math_floor (r * of_nat (length chars)))) w1)
      else (result, w))"
  by pat_completeness auto
termination
  by (relation "measure (\<lambda>(i, result, w). 6 - i)") auto

declare code_loop.simps [simp del]

definition generateRandomShortCode :: "platform \<Rightarrow> world \<Rightarrow> string \<times> world" where
  "generateRandomShortCode P w =
     (let (result, w1) = code_loop 0 [] w;
          w2 = logger_info P ''Generated random shortcode''
                 (JObj [(''shortCode'', JStr result)]) ''urlUtils'' w1
      in (result, w2))"

definition isShortCodeUnique :: "string \<Rightarrow> ShortenedUrl list \<Rightarrow> bool" where
  "isShortCodeUnique code existingUrls = (\<not> list_ex (\<lambda>url. shortCode url = code) existingUrls)"

definition locations :: "string list" where
  "locations = [''New York, US'', ''London, UK'', ''Tokyo, JP'', ''Sydney, AU'',
                ''Berlin, DE'', ''Mumbai, IN'']"

text \<open>An index out of range reads \<open>undefined\<close>, here \<open>None\<close>.\<close>

definition getCoarseLocation :: "world \<Rightarrow> string option \<times> world" where
  "getCoarseLocation w =
     (let (r, w1) = Math_random w;
          i = Math_floor (r * of_nat (length locations))
      in (if 0 \<le> i \<and> i < int (length locations) then Some (locations ! nat i) else None, w1))"

definition getSimulatedIP :: "world \<Rightarrow> string \<times> world" where
  "getSimulatedIP w =
     (let (r1, w1) = Math_random w;
          (r2, w2) = Math_random w1;
          (r3, w3) = Math_random w2;
          (r4, w4) = Math_random w3
      in (show_int (Math_floor (r1 * 255)) @ ''.'' @ show_int (Math_floor (r2 * 255)) @ ''.'' @
          show_int (Math_floor (r3 * 255)) @ ''.'' @ show_int (Math_floor (r4 * 255)), w4))"

section \<open>The record store (the hook \<open>useUrlStorage\<close>)\<close>

text \<open>
  The hook keeps the record collection in React state. A function of the hook reads
  \<open>shortenedUrls\<close>, the value captured when the component rendered, and
  \<open>setShortenedUrls\<close> sets the value the next render sees. The functions below take the
  captured value as the parameter \<open>shortenedUrls\<close> and thread the value set so far as
  \<open>st\<close>, together with the world. A caught exception is logged as an empty object.
\<close>

definition loadUrls ::
  "platform \<Rightarrow> ShortenedUrl list \<Rightarrow> world \<Rightarrow> ShortenedUrl list \<times> world" where
  "loadUrls P st w =
     (case getItem ''shortened-urls'' w of
        None \<Rightarrow> (st, w)
      | Some stored \<Rightarrow>
          if stored = [] then (st, w)
          else (case parseUrls P stored of
                  Some urls \<Rightarrow>
                    (urls, logger_info P ''Loaded URLs from storage''
                             (JObj [(''count'', JNum (of_nat (length urls)))]) ''useUrlStorage'' w)
                | None \<Rightarrow>
                    (st, logger_error P ''Failed to load URLs from storage''
                           (JObj []) ''useUrlStorage'' w)))"

definition saveUrls ::
  "platform \<Rightarrow> ShortenedUrl list \<Rightarrow> ShortenedUrl list \<Rightarrow> world \<Rightarrow> ShortenedUrl list \<times> world" where
  "saveUrls P urls st w =
     (case setItem P ''shortened-urls'' (stringifyUrls P urls) w of
        Some w1 \<Rightarrow>
          (urls, logger_info P ''Saved URLs to storage''
                   (JObj [(''count'', JNum (of_nat (length urls)))]) ''useUrlStorage'' w1)
      | None \<Rightarrow>
          (st, logger_error P ''Failed to save URLs to storage'' (JObj []) ''useUrlStorage'' w))"

definition addUrl ::
  "platform \<Rightarrow> ShortenedUrl list \<Rightarrow> ShortenedUrl \<Rightarrow> ShortenedUrl list \<Rightarrow> world
     \<Rightarrow> ShortenedUrl list \<times> world" where
  "addUrl P shortenedUrls url st w =
     (let updatedUrls = shortenedUrls @ [url];
          (st1, w1) = saveUrls P updatedUrls st w
      in (st1, logger_info P ''Added new shortened URL''
                 (JObj [(''shortCode'', JStr (shortCode url)),
                        (''originalUrl'', JStr (originalUrl url))]) ''useUrlStorage'' w1))"

text \<open>The value of the local \<open>updatedUrls\<close> of \<open>addClick\<close>, and \<open>addClick\<close>.\<close>

definition addClick_updatedUrls ::
  "ShortenedUrl list \<Rightarrow> string \<Rightarrow> ClickData \<Rightarrow> ShortenedUrl list" where
  "addClick_updatedUrls shortenedUrls code clickData =
     map (\<lambda>url. if shortCode url = code
                then url\<lparr>clicks := clicks url @ [clickData]\<rparr>
                else url) shortenedUrls"

definition addClick ::
  "platform \<Rightarrow> ShortenedUrl list \<Rightarrow> string \<Rightarrow> ClickData \<Rightarrow> ShortenedUrl list \<Rightarrow> world
     \<Rightarrow> ShortenedUrl list \<times> world" where
  "addClick P shortenedUrls code clickData st w =
     (let updatedUrls = addClick_updatedUrls shortenedUrls code clickData;
          (st1, w1) = saveUrls P updatedUrls st w
      in (st1, logger_info P ''Added click data''
                 (JObj [(''shortCode'', JStr code), (''clickId'', JStr (click_id clickData))])
                 ''useUrlStorage'' w1))"

definition findUrlByShortCode :: "ShortenedUrl list \<Rightarrow> string \<Rightarrow> ShortenedUrl option" where
  "findUrlByShortCode shortenedUrls code =
     find (\<lambda>url. shortCode url = code \<and> isActive url) shortenedUrls"

definition isUrlExpired :: "ShortenedUrl \<Rightarrow> world \<Rightarrow> bool \<times> world" where
  "isUrlExpired url w = (let (now, w1) = Date_now w in (now > expiresAt url, w1))"

definition clearAllUrls :: "platform \<Rightarrow> world \<Rightarrow> ShortenedUrl list \<times> world" where
  "clearAllUrls P w =
     ([], logger_info P ''Cleared all URLs'' (JObj []) ''useUrlStorage''
            (removeItem ''shortened-urls'' w))"

section \<open>The submission validator (the component \<open>UrlShortenerForm\<close>)\<close>

text \<open>
  An object used as a dictionary is an association list: assigning a property replaces
  the value of a key that is present and adds the key otherwise. The order in which
  JavaScript enumerates the keys is not modelled; only the payload of a log entry could
  show it.
\<close>

type_synonym formErrors = "(string \<times> string) list"
type_synonym allErrors = "(nat \<times> formErrors) list"

record UrlShortenerForm =
  forms :: "UrlFormData list"
  errors :: allErrors
  successMessage :: string

definition validateForm ::
  "platform \<Rightarrow> ShortenedUrl list \<Rightarrow> nat \<Rightarrow> UrlFormData \<Rightarrow> formErrors" where
  "validateForm P shortenedUrls index form =
     (let e0 = [];
          e1 = (if trim (form_originalUrl form) = []
                then AList.update ''originalUrl'' ''URL is required'' e0
                else if \<not> validateUrl P (form_originalUrl form)
                then AList.update ''originalUrl'' ''Please enter a valid URL'' e0
                else e0);
          e2 = (if trim (customShortCode form) \<noteq> []
                then (if \<not> validateShortCode (customShortCode form)
                      then AList.update ''customShortCode''
                             ''Shortcode must be 3-20 alphanumeric characters'' e1
                      else if \<not> isShortCodeUnique (customShortCode form) shortenedUrls
                      then AList.update ''customShortCode'' ''This shortcode is already taken'' e1
                      else e1)
                else e1)
      in (if form_validityMinutes form < 1 \<or> form_validityMinutes form > 43200
          then AList.update ''validityMinutes''
                 ''Validity must be between 1 and 43200 minutes'' e2
          else e2))"

text \<open>\<open>xs.findIndex(p)\<close>: the index of the first element that satisfies \<open>p\<close>, or \<open>-1\<close>.\<close>

fun findIndex :: "('a \<Rightarrow> bool) \<Rightarrow> 'a list \<Rightarrow> int" where
  "findIndex p [] = - 1"
| "findIndex p (x # xs) =
     (if p x then 0 else (let r = findIndex p xs in if r < 0 then - 1 else r + 1))"

text \<open>The body of the first \<open>forEach\<close> of \<open>validateAllForms\<close>.\<close>

definition validate_step ::
  "platform \<Rightarrow> ShortenedUrl list \<Rightarrow> allErrors \<times> bool \<Rightarrow> UrlFormData \<times> nat \<Rightarrow> allErrors \<times> bool" where
  "validate_step P shortenedUrls acc item =
     (let formErrors = validateForm P shortenedUrls (snd item) (fst item)
      in if length formErrors > 0
         then (AList.update (snd item) formErrors (fst acc), True)
         else acc)"

text \<open>The body of \<open>duplicates.forEach\<close>; a duplicate is a pair of a code and an index.\<close>

definition flag_duplicate :: "allErrors \<times> bool \<Rightarrow> string \<times> nat \<Rightarrow> allErrors \<times> bool" where
  "flag_duplicate acc duplicate =
     (let present = (case map_of (fst acc) (snd duplicate) of None \<Rightarrow> [] | Some fe \<Rightarrow> fe)
      in (AList.update (snd duplicate)
            (AList.update ''customShortCode'' ''Duplicate shortcode in current forms'' present)
            (fst acc), True))"

definition shortCodes_of :: "UrlFormData list \<Rightarrow> (string \<times> nat) list" where
  "shortCodes_of fs =
     filter (\<lambda>item. fst item \<noteq> [])
       (map (\<lambda>(form, index). (trim (customShortCode form), index)) (zip fs [0..<length fs]))"

definition duplicates_of :: "(string \<times> nat) list \<Rightarrow> (string \<times> nat) list" where
  "duplicates_of shortCodes =
     map fst
       (filter (\<lambda>(item, index). findIndex (\<lambda>other. fst other = fst item) shortCodes \<noteq> int index)
          (zip shortCodes [0..<length shortCodes]))"

text \<open>
  \<open>validateAllForms\<close> returns whether the batch is valid, with the error object it hands
  to \<open>setErrors\<close>.
\<close>

definition validateAllForms ::
  "platform \<Rightarrow> ShortenedUrl list \<Rightarrow> UrlFormData list \<Rightarrow> bool \<times> allErrors" where
  "validateAllForms P shortenedUrls fs =
     (let checked = foldl (validate_step P shortenedUrls) ([], False) (zip fs [0..<length fs]);
          shortCodes = shortCodes_of fs;
          duplicates = duplicates_of shortCodes;
          flagged = foldl flag_duplicate checked duplicates
      in (\<not> snd flagged, fst flagged))"

text \<open>The body of \<open>forms.forEach\<close> in \<open>handleSubmit\<close>, and the loop.\<close>

definition createUrl ::
  "platform \<Rightarrow> ShortenedUrl list \<Rightarrow> UrlFormData \<Rightarrow> ShortenedUrl list \<Rightarrow> world
     \<Rightarrow> ShortenedUrl \<times> ShortenedUrl list \<times> world" where
  "createUrl P shortenedUrls form st w =
     (let (code, w1) = (if trim (customShortCode form) \<noteq> []
                        then (trim (customShortCode form), w)
                        else generateRandomShortCode P w);
          (now, w2) = Date_now w1;
          expires = now + (form_validityMinutes form * 60 * 1000);
          (r, w3) = Math_random w2;
          shortenedUrl = \<lparr>url_id = substr (toString36 P r) 2 9,
                          originalUrl = form_originalUrl form,
                          shortCode = code,
                          createdAt = now,
                          expiresAt = expires,
                          validityMinutes = form_validityMinutes form,
                          clicks = [],
                          isActive = True\<rparr>;
          (st1, w4) = addUrl P shortenedUrls shortenedUrl st w3
      in (shortenedUrl, st1, w4))"

fun createUrls ::
  "platform \<Rightarrow> ShortenedUrl list \<Rightarrow> UrlFormData list \<Rightarrow> ShortenedUrl list \<Rightarrow> ShortenedUrl list
     \<Rightarrow> world \<Rightarrow> ShortenedUrl list \<times> ShortenedUrl list \<times> world" where
  "createUrls P shortenedUrls [] createdUrls st w = (createdUrls, st, w)"
| "createUrls P shortenedUrls (form # rest) createdUrls st w =
     (let (shortenedUrl, st1, w1) = createUrl P shortenedUrls form st w
      in createUrls P shortenedUrls rest (createdUrls @ [shortenedUrl]) st1 w1)"

definition errors_js :: "allErrors \<Rightarrow> jsval" where
  "errors_js es =
     JObj (map (\<lambda>(i, fe). (show_nat i, JObj (map (\<lambda>(k, v). (k, JStr v)) fe))) es)"

definition handleSubmit ::
  "platform \<Rightarrow> ShortenedUrl list \<Rightarrow> UrlShortenerForm \<Rightarrow> ShortenedUrl list \<Rightarrow> world
     \<Rightarrow> UrlShortenerForm \<times> ShortenedUrl list \<times> world" where
  "handleSubmit P shortenedUrls c st w =
     (let (valid, allErrors) = validateAllForms P shortenedUrls (forms c);
          c1 = c\<lparr>successMessage := [], errors := allErrors\<rparr>
      in if \<not> valid
         then (c1, st, logger_warn P ''Form validation failed''
                         (JObj [(''errors'', errors_js (errors c))]) ''UrlShortenerForm'' w)
         else (let (createdUrls, st1, w1) = createUrls P shortenedUrls (forms c) [] st w;
                   n = length createdUrls;
                   c2 = c1\<lparr>successMessage :=
                            ''Successfully created '' @ show_nat n @ '' short URL'' @
                            (if n > 1 then ''s'' else []) @ ''!'',
                          forms := [\<lparr>form_originalUrl = [], customShortCode = [],
                                     form_validityMinutes = 30\<rparr>]\<rparr>
               in (c2, st1, logger_info P ''Successfully created short URLs''
                              (JObj [(''count'', JNum (of_nat n)),
                                     (''shortCodes'', JArr (map (\<lambda>url. JStr (shortCode url)) createdUrls))])
                              ''UrlShortenerForm'' w1)))"

text \<open>
  The state the component starts with and the other writers of \<open>forms\<close>: \<open>addForm\<close>,
  \<open>removeForm\<close>, and \<open>updateForm\<close>, which the three input fields of a rendered form call
  from their \<open>onChange\<close>. \<open>updateForm\<close> takes the field with its new value; the field of
  the validity receives \<open>parseInt(e.target.value) || 30\<close>, where \<open>NaN\<close> and 0 are falsy.
  The handlers belong to the rendered forms, so their index is below the number of
  forms; the model leaves the forms as they are at another index, where JavaScript
  would extend the array.
\<close>

definition initial_form_state :: UrlShortenerForm where
  "initial_form_state =
     \<lparr>forms = [\<lparr>form_originalUrl = [], customShortCode = [], form_validityMinutes = 30\<rparr>],
      errors = [], successMessage = []\<rparr>"

definition addForm :: "platform \<Rightarrow> UrlShortenerForm \<Rightarrow> world \<Rightarrow> UrlShortenerForm \<times> world" where
  "addForm P c w =
     (if length (forms c) < 5
      then (c\<lparr>forms := forms c @
                 [\<lparr>form_originalUrl = [], customShortCode = [], form_validityMinutes = 30\<rparr>]\<rparr>,
            logger_info P ''Added new URL form''
              (JObj [(''totalForms'', JNum (of_nat (length (forms c) + 1)))])
              ''UrlShortenerForm'' w)
      else (c, w))"

definition removeForm ::
  "platform \<Rightarrow> nat \<Rightarrow> UrlShortenerForm \<Rightarrow> world \<Rightarrow> UrlShortenerForm \<times> world" where
  "removeForm P index c w =
     (if length (forms c) > 1
      then (let newForms = map fst (filter (\<lambda>(form, i). i \<noteq> index)
                                      (zip (forms c) [0..<length (forms c)]))
            in (c\<lparr>forms := newForms, errors := AList.delete index (errors c)\<rparr>,
                logger_info P ''Removed URL form''
                  (JObj [(''index'', JNum (of_nat index)),
                         (''remainingForms'', JNum (of_nat (length newForms)))])
                  ''UrlShortenerForm'' w))
      else (c, w))"

datatype form_field = OriginalUrl string | CustomShortCode string | ValidityMinutes rat

fun field_key :: "form_field \<Rightarrow> string" where
  "field_key (OriginalUrl v) = ''originalUrl''"
| "field_key (CustomShortCode v) = ''customShortCode''"
| "field_key (ValidityMinutes v) = ''validityMinutes''"

fun set_field :: "form_field \<Rightarrow> UrlFormData \<Rightarrow> UrlFormData" where
  "set_field (OriginalUrl v) form = form\<lparr>form_originalUrl := v\<rparr>"
| "set_field (CustomShortCode v) form = form\<lparr>customShortCode := v\<rparr>"
| "set_field (ValidityMinutes v) form = form\<lparr>form_validityMinutes := v\<rparr>"

definition updateForm :: "nat \<Rightarrow> form_field \<Rightarrow> UrlShortenerForm \<Rightarrow> UrlShortenerForm" where
  "updateForm index field c =
     (let newForms = (forms c)[index := set_field field (forms c ! index)];
          c1 = c\<lparr>forms := newForms\<rparr>
      in (case map_of (errors c) index of
            None \<Rightarrow> c1
          | Some formErrors \<Rightarrow>
              (case map_of formErrors (field_key field) of
                 None \<Rightarrow> c1
               | Some m \<Rightarrow>
                   if m = [] then c1
                   else c1\<lparr>errors := AList.update index
                            (AList.delete (field_key field) formErrors) (errors c)\<rparr>)))"

definition originalUrl_onChange :: "nat \<Rightarrow> string \<Rightarrow> UrlShortenerForm \<Rightarrow> UrlShortenerForm" where
  "originalUrl_onChange index v c = updateForm index (OriginalUrl v) c"

definition customShortCode_onChange :: "nat \<Rightarrow> string \<Rightarrow> UrlShortenerForm \<Rightarrow> UrlShortenerForm" where
  "customShortCode_onChange index v c = updateForm index (CustomShortCode v) c"

definition validityMinutes_onChange ::
  "platform \<Rightarrow> nat \<Rightarrow> string \<Rightarrow> UrlShortenerForm \<Rightarrow> UrlShortenerForm" where
  "validityMinutes_onChange P index v c =
     updateForm index
       (ValidityMinutes (case parseInt P v of
                           None \<Rightarrow> 30
                         | Some n \<Rightarrow> if n = 0 then 30 else of_int n)) c"

text \<open>
  The states of the component: the one it starts with, and the ones its handlers make
  from a state, whatever the event, the world and the collection of the hook.
\<close>

inductive_set form_states :: "platform \<Rightarrow> UrlShortenerForm set" for P :: platform where
  started: "initial_form_state \<in> form_states P"
| added: "c \<in> form_states P \<Longrightarrow> fst (addForm P c w) \<in> form_states P"
| removed: "c \<in> form_states P \<Longrightarrow> fst (removeForm P index c w) \<in> form_states P"
| url_changed:
    "c \<in> form_states P \<Longrightarrow> index < length (forms c) \<Longrightarrow>
     originalUrl_onChange index v c \<in> form_states P"
| code_changed:
    "c \<in> form_states P \<Longrightarrow> index < length (forms c) \<Longrightarrow>
     customShortCode_onChange index v c \<in> form_states P"
| validity_changed:
    "c \<in> form_states P \<Longrightarrow> index < length (forms c) \<Longrightarrow>
     validityMinutes_onChange P index v c \<in> form_states P"
| submitted:
    "c \<in> form_states P \<Longrightarrow> fst (handleSubmit P shortenedUrls c st w) \<in> form_states P"

section \<open>The redirect resolver (the component \<open>RedirectHandler\<close>)\<close>

text \<open>
  The state of the component, with the destination of the countdown interval when one
  runs. \<open>RedirectHandler_effect\<close> is the body of the effect; its parameter is the route
  parameter, \<open>None\<close> when it is undefined. The test \<open>!shortCode\<close> holds of \<open>undefined\<close> and
  of the empty string.
\<close>

record RedirectHandler =
  redirecting :: bool
  error :: string
  countdown :: nat
  countdownInterval :: "string option"

definition RedirectHandler_effect ::
  "platform \<Rightarrow> ShortenedUrl list \<Rightarrow> string option \<Rightarrow> RedirectHandler \<Rightarrow> ShortenedUrl list \<Rightarrow> world
     \<Rightarrow> RedirectHandler \<times> ShortenedUrl list \<times> world" where
  "RedirectHandler_effect P shortenedUrls param c st w =
     (case (if param = Some [] then None else param) of
        None \<Rightarrow> (c\<lparr>error := ''Invalid short code'', redirecting := False\<rparr>, st, w)
      | Some code \<Rightarrow>
        (case findUrlByShortCode shortenedUrls code of
           None \<Rightarrow>
             (c\<lparr>error := ''Short URL not found'', redirecting := False\<rparr>, st,
              logger_warn P ''Short code not found'' (JObj [(''shortCode'', JStr code)])
                ''RedirectHandler'' w)
         | Some shortenedUrl \<Rightarrow>
             (let (expired, w1) = isUrlExpired shortenedUrl w
              in if expired
                 then (c\<lparr>error := ''This short URL has expired'', redirecting := False\<rparr>, st,
                       logger_warn P ''Attempted to access expired URL''
                         (JObj [(''shortCode'', JStr code),
                                (''expiresAt'', JNum (expiresAt shortenedUrl))])
                         ''RedirectHandler'' w1)
                 else (let (r, w2) = Math_random w1;
                           (t, w3) = Date_now w2;
                           (address, w4) = getSimulatedIP w3;
                           (place, w5) = getCoarseLocation w4;
                           clickData = \<lparr>click_id = substr (toString36 P r) 2 9,
                                        click_timestamp = t,
                                        userAgent = navigator_userAgent P,
                                        referrer = document_referrer P,
                                        ip = address,
                                        location = place\<rparr>;
                           (st1, w6) = addClick P shortenedUrls code clickData st w5
                       in (c\<lparr>countdownInterval := Some (originalUrl shortenedUrl)\<rparr>, st1,
                           logger_info P ''Recorded click and redirecting''
                             (JObj [(''shortCode'', JStr code),
                                    (''originalUrl'', JStr (originalUrl shortenedUrl)),
                                    (''clickId'', JStr (click_id clickData))])
                             ''RedirectHandler'' w6)))))"

text \<open>
  The two failure states of the resolver are told apart by the message the component
  shows: the message for an expired record, and the two messages for a missing code and
  a code without an active record.
\<close>

datatype failure = NotFound | Expired

definition terminal_state :: "RedirectHandler \<Rightarrow> failure option" where
  "terminal_state c =
     (if redirecting c then None
      else if error c = ''This short URL has expired'' then Some Expired
      else if error c = ''Invalid short code'' \<or> error c = ''Short URL not found''
      then Some NotFound
      else None)"

section \<open>A concrete platform and world\<close>

definition demo_parseInt :: "string \<Rightarrow> int option" where
  "demo_parseInt s =
     (if s \<noteq> [] \<and> list_all (in_range CHR ''0'' CHR ''9'') s
      then Some (foldl (\<lambda>n c. 10 * n + (int (of_char c) - 48)) 0 s)
      else None)"

definition demo_platform :: platform where
  "demo_platform =
     \<lparr>urlParses = (\<lambda>s. take 8 s = ''https://''),
      toString36 = (\<lambda>r. ''0.k3j9x0q2mzp''),
      stringifyLogs = (\<lambda>ls. concat (map message ls)),
      parseLogs = (\<lambda>s. None),
      stringifyUrls = (\<lambda>us. concat (map (\<lambda>u. shortCode u @ '','') us)),
      parseUrls = (\<lambda>s. None),
      parseInt = demo_parseInt,
      storageAccepts = (\<lambda>items k v. True),
      navigator_userAgent = ''agent'',
      document_referrer = []\<rparr>"

definition demo_world :: world where
  "demo_world =
     \<lparr>logs = [], localStorage = Map.empty,
      clock = (\<lambda>n. 1000 + of_nat n), random = (\<lambda>n. 1 / 2)\<rparr>"

definition demo_form :: "string \<Rightarrow> string \<Rightarrow> rat \<Rightarrow> UrlFormData" where
  "demo_form url code minutes =
     \<lparr>form_originalUrl = url, customShortCode = code, form_validityMinutes = minutes\<rparr>"

definition demo_url :: "string \<Rightarrow> bool \<Rightarrow> rat \<Rightarrow> ShortenedUrl" where
  "demo_url code active expires =
     \<lparr>url_id = ''id0'', originalUrl = ''https://example.com'', shortCode = code,
      createdAt = 0, expiresAt = expires, validityMinutes = 1, clicks = [],
      isActive = active\<rparr>"

definition demo_click :: ClickData where
  "demo_click =
     \<lparr>click_id = ''c1'', click_timestamp = 5, userAgent = ''agent'', referrer = [],
      ip = ''1.2.3.4'', location = Some ''Tokyo, JP''\<rparr>"

definition duplicate_batch :: UrlShortenerForm where
  "duplicate_batch =
     \<lparr>forms = [demo_form ''https://a.example'' ''abc123'' 30,
               demo_form ''https://b.example'' ''abc123'' 30],
      errors = [], successMessage = []\<rparr>"

definition overlong_batch :: UrlShortenerForm where
  "overlong_batch =
     validityMinutes_onChange demo_platform 0 ''43201''
       (originalUrl_onChange 0 ''https://a.example'' initial_form_state)"

section \<open>Notions used in the statements\<close>

text \<open>
  \<open>Math.random()\<close> returns a number that is at least 0 and less than 1; \<open>unit_random\<close>
  says so of every value the world will return. \<open>field_error es index field\<close> is the
  expression \<open>errors[index]?.[field]\<close> with which the component reads an error.
\<close>

definition unit_random :: "world \<Rightarrow> bool" where
  "unit_random w = (\<forall>n. 0 \<le> random w n \<and> random w n < 1)"

definition field_error :: "allErrors \<Rightarrow> nat \<Rightarrow> string \<Rightarrow> string option" where
  "field_error es index field =
     (case map_of es index of None \<Rightarrow> None | Some fe \<Rightarrow> map_of fe field)"

text \<open>
  \<open>created_from form r\<close>: the record \<open>r\<close> has the fields that the creation of a record
  from the request \<open>form\<close> is to give it.
\<close>

definition created_from :: "UrlFormData \<Rightarrow> ShortenedUrl \<Rightarrow> bool" where
  "created_from form r =
     (expiresAt r = createdAt r + form_validityMinutes form * 60000 \<and>
      validityMinutes r = form_validityMinutes form \<and>
      originalUrl r = form_originalUrl form \<and>
      clicks r = [] \<and> isActive r \<and>
      (if trim (customShortCode form) = []
       then length (shortCode r) = 6 \<and> set (shortCode r) \<subseteq> set chars
       else shortCode r = trim (customShortCode form)))"

section \<open>What a log call leaves alone\<close>

lemma saveLogs_frame:
  "logs (saveLogs P w) = logs w" "clock (saveLogs P w) = clock w"
  "random (saveLogs P w) = random w"
  "k \<noteq> ''app-logs'' \<Longrightarrow> localStorage (saveLogs P w) k = localStorage w k"
  by (auto simp: saveLogs_def setItem_def split: option.splits if_splits)

lemma addLog_logs:
  "logs (addLog P lvl msg dat src w) =
     \<lparr>log_id = substr (toString36 P (random w 0)) 2 9, log_timestamp = clock w 0,
      log_level = lvl, message = msg, data = dat, source = src\<rparr> # take 999 (logs w)"
  by (simp add: addLog_def generateId_def Math_random_def Date_now_def maxLogs_def
      saveLogs_frame Let_def)

lemma addLog_frame:
  "clock (addLog P lvl msg dat src w) = (\<lambda>n. clock w (Suc n))"
  "random (addLog P lvl msg dat src w) = (\<lambda>n. random w (Suc n))"
  "k \<noteq> ''app-logs'' \<Longrightarrow> localStorage (addLog P lvl msg dat src w) k = localStorage w k"
  by (simp_all add: addLog_def generateId_def Math_random_def Date_now_def
      saveLogs_frame Let_def)

lemma logger_frame:
  "k \<noteq> ''app-logs'' \<Longrightarrow> localStorage (logger_info P msg dat s w) k = localStorage w k"
  "k \<noteq> ''app-logs'' \<Longrightarrow> localStorage (logger_warn P msg dat s w) k = localStorage w k"
  "k \<noteq> ''app-logs'' \<Longrightarrow> localStorage (logger_error P msg dat s w) k = localStorage w k"
  by (simp_all add: logger_info_def logger_warn_def logger_error_def addLog_frame)

lemma unit_random_logger:
  "unit_random w \<Longrightarrow> unit_random (logger_info P msg dat s w)"
  "unit_random w \<Longrightarrow> unit_random (logger_error P msg dat s w)"
  by (simp_all add: logger_info_def logger_error_def unit_random_def addLog_frame)

lemma unit_random_Math_random:
  "unit_random w \<Longrightarrow> unit_random (snd (Math_random w))"
  by (simp add: unit_random_def Math_random_def)

lemma unit_random_Date_now:
  "unit_random w \<Longrightarrow> unit_random (snd (Date_now w))"
  by (simp add: unit_random_def Date_now_def)

lemma Math_random_unit:
  "unit_random w \<Longrightarrow> 0 \<le> fst (Math_random w) \<and> fst (Math_random w) < 1"
  by (simp add: unit_random_def Math_random_def)

section \<open>The alphabet and the generated code\<close>

lemma length_chars: "length chars = 62"
  by (simp add: chars_def)

lemma chars_alnum: "list_all alnum_class chars"
  unfolding chars_def alnum_class_def in_range_def by simp

lemma of_char_chars:
  "map of_char chars = ([97..<123] @ [65..<91] @ [48..<58] :: nat list)"
  unfolding chars_def by (simp add: upt_rec)

lemma alnum_class_chars: "alnum_class c = (c \<in> set chars)"
proof
  assume "c \<in> set chars"
  then show "alnum_class c"
    using chars_alnum by (simp add: list_all_iff)
next
  assume "alnum_class c"
  then have "(of_char c :: nat) \<in> {97..<123} \<union> {65..<91} \<union> {48..<58}"
    unfolding alnum_class_def in_range_def by auto
  then have "(of_char c :: nat) \<in> set ([97..<123] @ [65..<91] @ [48..<58])"
    by (simp only: set_append set_upt Un_assoc)
  then have "(of_char c :: nat) \<in> of_char ` set chars"
    by (simp only: of_char_chars [symmetric] set_map)
  then show "c \<in> set chars" by auto
qed

lemma validateShortCode_iff:
  "validateShortCode s = (set s \<subseteq> set chars \<and> 3 \<le> length s \<and> length s \<le> 20)"
  by (auto simp: validateShortCode_def alphanumericRegex_test_def list_all_iff alnum_class_chars)

lemma charAt_chars_unit:
  assumes "0 \<le> r" "r < 1"
  shows "\<exists>c. charAt chars (Math_floor (r * of_nat (length chars))) = [c] \<and> c \<in> set chars"
proof -
  let ?i = "Math_floor (r * of_nat (length chars))"
  have "0 \<le> r * 62" using assms by simp
  then have lo: "0 \<le> ?i" by (simp add: Math_floor_def length_chars)
  have "r * 62 < 62" using assms by simp
  then have hi: "?i < 62" by (simp add: Math_floor_def length_chars floor_less_iff)
  have "nat ?i < length chars" using lo hi by (simp add: length_chars)
  then have "chars ! nat ?i \<in> set chars" by (rule nth_mem)
  moreover have "charAt chars ?i = [chars ! nat ?i]"
    using lo hi by (simp add: charAt_def length_chars)
  ultimately show ?thesis by blast
qed

lemma code_loop_result:
  "unit_random w \<Longrightarrow> i \<le> 6 \<Longrightarrow>
   length (fst (code_loop i result w)) = length result + (6 - i) \<and>
   set (fst (code_loop i result w)) \<subseteq> set result \<union> set chars \<and>
   unit_random (snd (code_loop i result w)) \<and>
   localStorage (snd (code_loop i result w)) = localStorage w"
proof (induction i result w rule: code_loop.induct)
  case (1 i result w)
  show ?case
  proof (cases "i < 6")
    case False
    with "1.prems" show ?thesis by (simp add: code_loop.simps)
  next
    case True
    obtain r w1 where rw: "Math_random w = (r, w1)" by (cases "Math_random w")
    have r: "0 \<le> r \<and> r < 1" using Math_random_unit [OF "1.prems"(1)] rw by simp
    have w1: "unit_random w1" using unit_random_Math_random [OF "1.prems"(1)] rw by simp
    obtain c where c: "charAt chars (Math_floor (r * of_nat (length chars))) = [c]" "c \<in> set chars"
      using charAt_chars_unit r by blast
    have same: "localStorage w1 = localStorage w"
      using rw by (auto simp: Math_random_def)
    have step: "code_loop i result w = code_loop (i + 1) (result @ [c]) w1"
      using True rw c by (subst code_loop.simps) simp
    have IH: "length (fst (code_loop (i + 1) (result @ [c]) w1)) = length (result @ [c]) + (6 - (i + 1)) \<and>
      set (fst (code_loop (i + 1) (result @ [c]) w1)) \<subseteq> set (result @ [c]) \<union> set chars \<and>
      unit_random (snd (code_loop (i + 1) (result @ [c]) w1)) \<and>
      localStorage (snd (code_loop (i + 1) (result @ [c]) w1)) = localStorage w1"
      using "1.IH" [OF True rw [symmetric] refl w1] True c by simp
    show ?thesis using IH c True same unfolding step by auto
  qed
qed

lemma generateRandomShortCode_result:
  assumes "unit_random w"
  shows "length (fst (generateRandomShortCode P w)) = 6"
    and "set (fst (generateRandomShortCode P w)) \<subseteq> set chars"
    and "unit_random (snd (generateRandomShortCode P w))"
    and "localStorage (snd (generateRandomShortCode P w)) ''shortened-urls'' =
           localStorage w ''shortened-urls''"
  using code_loop_result [OF assms, of 0 "[]"]
  by (simp_all add: generateRandomShortCode_def split_def Let_def unit_random_logger logger_frame)

section \<open>The event log\<close>

text \<open>
  C7. Whatever the log holds, an append leaves at most 1000 entries, the new entry
  first and the former entries behind it in their order, cut to 999; and a load of a
  stored value that does not parse leaves the log empty (the load returns a world, it
  does not raise).
\<close>

theorem log_capped_newest_first:
  "length (logs (addLog P lvl msg dat src w)) \<le> 1000 \<and>
   logs (addLog P lvl msg dat src w) =
     \<lparr>log_id = fst (generateId P w), log_timestamp = fst (Date_now w),
      log_level = lvl, message = msg, data = dat, source = src\<rparr> # take 999 (logs w) \<and>
   (getItem ''app-logs'' w = Some stored \<and> stored \<noteq> [] \<and> parseLogs P stored = None
      \<longrightarrow> logs (loadLogs P w) = [])"
  by (simp add: addLog_logs generateId_def Math_random_def Date_now_def loadLogs_def)

theorem log_capped_newest_first_witness:
  "getItem ''app-logs'' (demo_world\<lparr>localStorage := [''app-logs'' \<mapsto> ''{'']\<rparr>) = Some ''{''
   \<and> ''{'' \<noteq> [] \<and> parseLogs demo_platform ''{'' = None
   \<and> logs (loadLogs demo_platform (demo_world\<lparr>localStorage := [''app-logs'' \<mapsto> ''{'']\<rparr>)) = []"
  using log_capped_newest_first [of demo_platform Info "[]" JUndefined None
      "demo_world\<lparr>localStorage := [''app-logs'' \<mapsto> ''{'']\<rparr>" "''{''"]
  by (simp add: getItem_def demo_world_def demo_platform_def)

section \<open>Short codes\<close>

text \<open>
  C8. \<open>validateShortCode s\<close> is true exactly when every character of \<open>s\<close> is one of the
  62 letters and digits and the length of \<open>s\<close> is between 3 and 20.
\<close>

theorem validateShortCode_spec:
  "validateShortCode s = ((\<forall>c \<in> set s. c \<in> set chars) \<and> 3 \<le> length s \<and> length s \<le> 20)"
  by (auto simp: validateShortCode_iff)

theorem validateShortCode_spec_witness:
  "set ''abc123'' \<subseteq> set chars \<and> validateShortCode ''abc123'' \<and>
   \<not> validateShortCode ''ab'' \<and> \<not> validateShortCode ''abc-12''"
  using validateShortCode_spec [of "''abc123''"] validateShortCode_spec [of "''ab''"]
    validateShortCode_spec [of "''abc-12''"]
  by (simp add: chars_def)

text \<open>
  C9. Whatever values below 1 and not below 0 the random source returns,
  \<open>generateRandomShortCode\<close> returns six characters of the alphabet, which has 62
  distinct characters.
\<close>

theorem generateRandomShortCode_six_alnum:
  "unit_random w \<Longrightarrow>
   length (fst (generateRandomShortCode P w)) = 6 \<and>
   set (fst (generateRandomShortCode P w)) \<subseteq> set chars \<and>
   length chars = 62 \<and> distinct chars"
  by (simp add: generateRandomShortCode_result length_chars) (simp add: chars_def)

theorem generateRandomShortCode_six_alnum_witness:
  "unit_random demo_world \<and>
   length (fst (generateRandomShortCode demo_platform demo_world)) = 6 \<and>
   set (fst (generateRandomShortCode demo_platform demo_world)) \<subseteq> set chars"
  using generateRandomShortCode_six_alnum [of demo_world demo_platform]
  by (simp add: unit_random_def demo_world_def)

text \<open>
  C10. A code that \<open>generateRandomShortCode\<close> returns passes \<open>validateShortCode\<close>.
\<close>

theorem generated_code_is_valid:
  "unit_random w \<Longrightarrow> validateShortCode (fst (generateRandomShortCode P w))"
  by (simp add: validateShortCode_iff generateRandomShortCode_result)

theorem generated_code_is_valid_witness:
  "unit_random demo_world \<and>
   validateShortCode (fst (generateRandomShortCode demo_platform demo_world))"
  using generated_code_is_valid [of demo_world demo_platform]
  by (simp add: unit_random_def demo_world_def)

section \<open>The record store\<close>

lemma setItem_unit_random:
  "setItem P k v w = Some w1 \<Longrightarrow> unit_random w \<Longrightarrow> unit_random w1"
  by (auto simp: setItem_def unit_random_def split: if_splits)

lemma saveUrls_unit_random:
  "unit_random w \<Longrightarrow> unit_random (snd (saveUrls P urls st w))"
  by (cases "setItem P ''shortened-urls'' (stringifyUrls P urls) w")
    (simp_all add: saveUrls_def unit_random_logger setItem_unit_random)

lemma saveUrls_accepted:
  "storageAccepts P (localStorage w) ''shortened-urls'' (stringifyUrls P urls) \<Longrightarrow>
   fst (saveUrls P urls st w) = urls \<and>
   localStorage (snd (saveUrls P urls st w)) ''shortened-urls'' = Some (stringifyUrls P urls)"
  by (simp add: saveUrls_def setItem_def logger_frame)

lemma saveUrls_refused:
  "\<not> storageAccepts P (localStorage w) ''shortened-urls'' (stringifyUrls P urls) \<Longrightarrow>
   fst (saveUrls P urls st w) = st \<and>
   localStorage (snd (saveUrls P urls st w)) ''shortened-urls'' = localStorage w ''shortened-urls''"
  by (simp add: saveUrls_def setItem_def logger_frame)

lemma addUrl_unit_random:
  "unit_random w \<Longrightarrow> unit_random (snd (addUrl P urls url st w))"
  by (simp add: addUrl_def split_def Let_def unit_random_logger saveUrls_unit_random)

text \<open>
  C2, as the code has it. \<open>addClick\<close> appends the click to every record whose short
  code is the given one, active or not, and leaves every other record as it is; when
  \<open>localStorage\<close> accepts the write, the updated collection is stored and becomes the
  state, and when it refuses, neither happens.
\<close>

theorem addClick_by_code:
  "length (addClick_updatedUrls urls code click) = length urls \<and>
   (\<forall>i < length urls.
      addClick_updatedUrls urls code click ! i =
        (if shortCode (urls ! i) = code
         then (urls ! i)\<lparr>clicks := clicks (urls ! i) @ [click]\<rparr>
         else urls ! i)) \<and>
   (if storageAccepts P (localStorage w) ''shortened-urls''
         (stringifyUrls P (addClick_updatedUrls urls code click))
    then fst (addClick P urls code click st w) = addClick_updatedUrls urls code click \<and>
         localStorage (snd (addClick P urls code click st w)) ''shortened-urls'' =
           Some (stringifyUrls P (addClick_updatedUrls urls code click))
    else fst (addClick P urls code click st w) = st \<and>
         localStorage (snd (addClick P urls code click st w)) ''shortened-urls'' =
           localStorage w ''shortened-urls'')"
proof -
  have 1: "length (addClick_updatedUrls urls code click) = length urls"
    by (simp add: addClick_updatedUrls_def)
  have 2: "\<forall>i < length urls.
      addClick_updatedUrls urls code click ! i =
        (if shortCode (urls ! i) = code
         then (urls ! i)\<lparr>clicks := clicks (urls ! i) @ [click]\<rparr>
         else urls ! i)"
    by (simp add: addClick_updatedUrls_def)
  have 3: "fst (addClick P urls code click st w) =
             fst (saveUrls P (addClick_updatedUrls urls code click) st w)"
    by (simp add: addClick_def split_def Let_def)
  have 4: "localStorage (snd (addClick P urls code click st w)) ''shortened-urls'' =
           localStorage (snd (saveUrls P (addClick_updatedUrls urls code click) st w)) ''shortened-urls''"
    by (simp add: addClick_def split_def Let_def logger_frame)
  show ?thesis
    using 1 2 saveUrls_accepted [of P w "addClick_updatedUrls urls code click" st]
      saveUrls_refused [of P w "addClick_updatedUrls urls code click" st]
    unfolding 3 4 by simp
qed

theorem addClick_by_code_witness:
  "fst (addClick demo_platform [demo_url ''abc'' True 0, demo_url ''xyz'' True 0] ''abc'' demo_click [] demo_world)
     = [(demo_url ''abc'' True 0)\<lparr>clicks := [demo_click]\<rparr>, demo_url ''xyz'' True 0] \<and>
   localStorage (snd (addClick demo_platform [demo_url ''abc'' True 0, demo_url ''xyz'' True 0] ''abc'' demo_click [] demo_world)) ''shortened-urls''
     = Some ''abc,xyz,''"
  using addClick_by_code [of "[demo_url ''abc'' True 0, demo_url ''xyz'' True 0]" "''abc''"
      demo_click demo_platform demo_world "[]"]
  by (simp add: demo_platform_def demo_world_def demo_url_def addClick_updatedUrls_def)

text \<open>
  The claim C2 as it is written fails: a record that is not active and has the given
  short code receives the click.
\<close>

theorem addClick_inactive_counterexample:
  "\<not> isActive (demo_url ''abc'' False 0) \<and>
   clicks (demo_url ''abc'' False 0) = [] \<and>
   map clicks (fst (addClick demo_platform [demo_url ''abc'' False 0] ''abc'' demo_click
      [demo_url ''abc'' False 0] demo_world)) = [[demo_click]]"
  by (simp add: addClick_def addClick_updatedUrls_def saveUrls_def setItem_def
      demo_platform_def demo_url_def split_def Let_def)

section \<open>Creation of records\<close>

lemma createUrl_created_from:
  assumes "unit_random w"
  shows "created_from form (fst (createUrl P urls form st w))"
proof (cases "trim (customShortCode form) = []")
  case True
  then show ?thesis
    using generateRandomShortCode_result(1,2) [OF assms, of P]
    by (simp add: createUrl_def created_from_def split_def Let_def)
next
  case False
  then show ?thesis
    by (simp add: createUrl_def created_from_def split_def Let_def)
qed

lemma createUrl_fresh_code:
  "trim (customShortCode form) = [] \<Longrightarrow>
   shortCode (fst (createUrl P urls form st w)) = fst (generateRandomShortCode P w)"
  by (simp add: createUrl_def split_def Let_def)

lemma createUrl_times:
  "expiresAt (fst (createUrl P urls form st w)) =
     createdAt (fst (createUrl P urls form st w)) + form_validityMinutes form * 60000"
  by (simp add: createUrl_def split_def Let_def)

lemma createUrl_unit_random:
  assumes "unit_random w"
  shows "unit_random (snd (snd (createUrl P urls form st w)))"
proof -
  let ?g = "if trim (customShortCode form) \<noteq> [] then (trim (customShortCode form), w)
            else generateRandomShortCode P w"
  have "unit_random (snd ?g)"
    using assms generateRandomShortCode_result(3) [OF assms, of P] by simp
  then have "unit_random (snd (Math_random (snd (Date_now (snd ?g)))))"
    by (intro unit_random_Math_random unit_random_Date_now)
  then show ?thesis
    by (simp add: createUrl_def split_def Let_def addUrl_unit_random del: if_not_P)
qed

lemma createUrls_created_from:
  "unit_random w \<Longrightarrow>
   length (fst (createUrls P urls fs created st w)) = length created + length fs \<and>
   take (length created) (fst (createUrls P urls fs created st w)) = created \<and>
   (\<forall>i < length fs.
      created_from (fs ! i) (fst (createUrls P urls fs created st w) ! (length created + i)))"
proof (induction fs arbitrary: created st w)
  case Nil
  then show ?case by simp
next
  case (Cons form rest)
  obtain u st1 w1 where step: "createUrl P urls form st w = (u, st1, w1)"
    by (cases "createUrl P urls form st w") auto
  have u: "created_from form u"
    using createUrl_created_from [OF Cons.prems, of form P urls st] step by simp
  have w1: "unit_random w1"
    using createUrl_unit_random [OF Cons.prems, of P urls form st] step by simp
  let ?res = "fst (createUrls P urls rest (created @ [u]) st1 w1)"
  have eq: "fst (createUrls P urls (form # rest) created st w) = ?res"
    using step by simp
  note IH = Cons.IH [OF w1, of "created @ [u]" st1]
  have len: "length ?res = length (created @ [u]) + length rest"
    using IH by (rule conjunct1)
  have tk: "take (length (created @ [u])) ?res = created @ [u]"
    using IH by (elim conjE)
  have rest: "\<forall>i < length rest. created_from (rest ! i) (?res ! (length (created @ [u]) + i))"
    using IH by (elim conjE)
  have "take (length created) (take (length (created @ [u])) ?res) = take (length created) ?res"
    by (simp only: take_take) simp
  then have tk1: "take (length created) ?res = created"
    unfolding tk by simp
  have "take (length (created @ [u])) ?res ! length created = ?res ! length created"
    by (rule nth_take) simp
  then have at: "?res ! length created = u"
    unfolding tk by simp
  have "\<forall>i < length (form # rest).
      created_from ((form # rest) ! i) (?res ! (length created + i))"
  proof (intro allI impI)
    fix i assume i: "i < length (form # rest)"
    show "created_from ((form # rest) ! i) (?res ! (length created + i))"
    proof (cases i)
      case 0
      then show ?thesis using at u by simp
    next
      case (Suc k)
      then have "k < length rest" using i by simp
      with rest have "created_from (rest ! k) (?res ! (length (created @ [u]) + k))" by blast
      then show ?thesis using Suc by simp
    qed
  qed
  then show ?case using len tk1 unfolding eq by simp
qed

text \<open>
  C4. \<open>isUrlExpired\<close> holds exactly when the time that \<open>Date.now()\<close> returns is after
  \<open>expiresAt\<close>; a record created from a request of one minute is not expired 59999 ms
  after its creation and is expired 60001 ms after it.
\<close>

theorem isUrlExpired_strictly_after:
  "fst (isUrlExpired url w) = (fst (Date_now w) > expiresAt url) \<and>
   (form_validityMinutes form = 1 \<longrightarrow>
      (fst (Date_now w) = createdAt (fst (createUrl P urls form st w0)) + 59999
         \<longrightarrow> \<not> fst (isUrlExpired (fst (createUrl P urls form st w0)) w)) \<and>
      (fst (Date_now w) = createdAt (fst (createUrl P urls form st w0)) + 60001
         \<longrightarrow> fst (isUrlExpired (fst (createUrl P urls form st w0)) w)))"
  by (simp add: isUrlExpired_def split_def Let_def createUrl_times)

theorem isUrlExpired_strictly_after_witness:
  "form_validityMinutes (demo_form ''https://example.com'' ''abc'' 1) = 1 \<and>
   createdAt (fst (createUrl demo_platform [] (demo_form ''https://example.com'' ''abc'' 1) []
      demo_world)) = 1000 \<and>
   \<not> fst (isUrlExpired (fst (createUrl demo_platform [] (demo_form ''https://example.com'' ''abc'' 1) []
      demo_world)) (demo_world\<lparr>clock := \<lambda>n. 60999\<rparr>)) \<and>
   fst (isUrlExpired (fst (createUrl demo_platform [] (demo_form ''https://example.com'' ''abc'' 1) []
      demo_world)) (demo_world\<lparr>clock := \<lambda>n. 61001\<rparr>))"
  using isUrlExpired_strictly_after [of
      "fst (createUrl demo_platform [] (demo_form ''https://example.com'' ''abc'' 1) [] demo_world)"
      "demo_world\<lparr>clock := \<lambda>n. 60999\<rparr>"
      "demo_form ''https://example.com'' ''abc'' 1" demo_platform "[]" "[]" demo_world]
    isUrlExpired_strictly_after [of
      "fst (createUrl demo_platform [] (demo_form ''https://example.com'' ''abc'' 1) [] demo_world)"
      "demo_world\<lparr>clock := \<lambda>n. 61001\<rparr>"
      "demo_form ''https://example.com'' ''abc'' 1" demo_platform "[]" "[]" demo_world]
  by (simp add: Date_now_def demo_form_def demo_world_def createUrl_def split_def Let_def
      trim_def is_ws_def)

text \<open>
  C5. The loop of \<open>handleSubmit\<close> creates one record for each request; the record has
  \<open>expiresAt = createdAt + validityMinutes * 60000\<close>, no click and \<open>isActive\<close>, and
  when the custom short code is empty (or white space only) its short code is six
  characters of the alphabet, the result of \<open>generateRandomShortCode\<close>. A submission
  that passes the validation leaves the state that this loop leaves.
\<close>

theorem submission_creates_records:
  assumes "unit_random w"
  shows "length (fst (createUrls P urls (forms c) [] st w)) = length (forms c) \<and>
    (\<forall>i < length (forms c).
       created_from (forms c ! i) (fst (createUrls P urls (forms c) [] st w) ! i)) \<and>
    (fst (validateAllForms P urls (forms c)) \<longrightarrow>
       fst (snd (handleSubmit P urls c st w)) = fst (snd (createUrls P urls (forms c) [] st w)))"
proof -
  have "fst (validateAllForms P urls (forms c)) \<longrightarrow>
       fst (snd (handleSubmit P urls c st w)) = fst (snd (createUrls P urls (forms c) [] st w))"
    by (simp add: handleSubmit_def split_def Let_def)
  then show ?thesis
    using createUrls_created_from [OF assms, of P urls "forms c" "[]" st] by simp
qed

theorem submission_creates_records_witness:
  "unit_random demo_world \<and>
   expiresAt (fst (createUrls demo_platform []
       [demo_form ''https://example.com'' [] 30] [] [] demo_world) ! 0) =
   createdAt (fst (createUrls demo_platform []
       [demo_form ''https://example.com'' [] 30] [] [] demo_world) ! 0) + 1800000 \<and>
   clicks (fst (createUrls demo_platform []
       [demo_form ''https://example.com'' [] 30] [] [] demo_world) ! 0) = [] \<and>
   isActive (fst (createUrls demo_platform []
       [demo_form ''https://example.com'' [] 30] [] [] demo_world) ! 0) \<and>
   length (shortCode (fst (createUrls demo_platform []
       [demo_form ''https://example.com'' [] 30] [] [] demo_world) ! 0)) = 6"
  using submission_creates_records [of demo_world demo_platform "[]"
      "\<lparr>forms = [demo_form ''https://example.com'' [] 30], errors = [], successMessage = []\<rparr>" "[]"]
  by (simp add: created_from_def trim_def demo_form_def unit_random_def demo_world_def)

section \<open>The redirect resolver\<close>

lemma isUrlExpired_fst:
  "fst (isUrlExpired url w) = (expiresAt url < fst (Date_now w))"
  by (simp add: isUrlExpired_def split_def Let_def)

lemma isUrlExpired_storage:
  "localStorage (snd (isUrlExpired url w)) = localStorage w"
  by (simp add: isUrlExpired_def split_def Date_now_def)

lemma effect_invalid:
  "param = None \<or> param = Some [] \<Longrightarrow>
   RedirectHandler_effect P urls param c st w =
     (c\<lparr>error := ''Invalid short code'', redirecting := False\<rparr>, st, w)"
  by (auto simp: RedirectHandler_effect_def)

lemma effect_missing:
  "code \<noteq> [] \<Longrightarrow> findUrlByShortCode urls code = None \<Longrightarrow>
   RedirectHandler_effect P urls (Some code) c st w =
     (c\<lparr>error := ''Short URL not found'', redirecting := False\<rparr>, st,
      logger_warn P ''Short code not found'' (JObj [(''shortCode'', JStr code)])
        ''RedirectHandler'' w)"
  by (simp add: RedirectHandler_effect_def)

lemma effect_expired:
  "code \<noteq> [] \<Longrightarrow> findUrlByShortCode urls code = Some url \<Longrightarrow> fst (isUrlExpired url w) \<Longrightarrow>
   RedirectHandler_effect P urls (Some code) c st w =
     (c\<lparr>error := ''This short URL has expired'', redirecting := False\<rparr>, st,
      logger_warn P ''Attempted to access expired URL''
        (JObj [(''shortCode'', JStr code), (''expiresAt'', JNum (expiresAt url))])
        ''RedirectHandler'' (snd (isUrlExpired url w)))"
  by (simp add: RedirectHandler_effect_def split_def)

text \<open>
  C6. Without a short code, or without an active record of that code, the resolver ends
  in \<open>NotFound\<close>; when the first active record of the code is past its expiry it ends in
  \<open>Expired\<close>; in both cases the record collection, in the state and in \<open>localStorage\<close>,
  is the one before.
\<close>

theorem resolver_failures:
  "((param = None \<or> param = Some [] \<or>
     (param = Some code \<and> findUrlByShortCode urls code = None)) \<longrightarrow>
      terminal_state (fst (RedirectHandler_effect P urls param c st w)) = Some NotFound \<and>
      fst (snd (RedirectHandler_effect P urls param c st w)) = st \<and>
      localStorage (snd (snd (RedirectHandler_effect P urls param c st w))) ''shortened-urls'' =
        localStorage w ''shortened-urls'') \<and>
   (param = Some code \<and> code \<noteq> [] \<and> findUrlByShortCode urls code = Some url \<and>
    expiresAt url < fst (Date_now w) \<longrightarrow>
      terminal_state (fst (RedirectHandler_effect P urls param c st w)) = Some Expired \<and>
      fst (snd (RedirectHandler_effect P urls param c st w)) = st \<and>
      localStorage (snd (snd (RedirectHandler_effect P urls param c st w))) ''shortened-urls'' =
        localStorage w ''shortened-urls'')"
proof (intro conjI impI)
  assume a: "param = None \<or> param = Some [] \<or>
     (param = Some code \<and> findUrlByShortCode urls code = None)"
  show "terminal_state (fst (RedirectHandler_effect P urls param c st w)) = Some NotFound"
  proof (cases "param = None \<or> param = Some []")
    case True
    then show ?thesis by (simp add: effect_invalid terminal_state_def)
  next
    case False
    with a have "param = Some code" "code \<noteq> []" "findUrlByShortCode urls code = None" by auto
    then show ?thesis by (simp add: effect_missing terminal_state_def)
  qed
  show "fst (snd (RedirectHandler_effect P urls param c st w)) = st"
  proof (cases "param = None \<or> param = Some []")
    case True
    then show ?thesis by (simp add: effect_invalid)
  next
    case False
    with a have "param = Some code" "code \<noteq> []" "findUrlByShortCode urls code = None" by auto
    then show ?thesis by (simp add: effect_missing)
  qed
  show "localStorage (snd (snd (RedirectHandler_effect P urls param c st w))) ''shortened-urls'' =
        localStorage w ''shortened-urls''"
  proof (cases "param = None \<or> param = Some []")
    case True
    then show ?thesis by (simp add: effect_invalid)
  next
    case False
    with a have "param = Some code" "code \<noteq> []" "findUrlByShortCode urls code = None" by auto
    then show ?thesis by (simp add: effect_missing logger_frame)
  qed
next
  assume b: "param = Some code \<and> code \<noteq> [] \<and> findUrlByShortCode urls code = Some url \<and>
    expiresAt url < fst (Date_now w)"
  then have eq: "RedirectHandler_effect P urls param c st w =
     (c\<lparr>error := ''This short URL has expired'', redirecting := False\<rparr>, st,
      logger_warn P ''Attempted to access expired URL''
        (JObj [(''shortCode'', JStr code), (''expiresAt'', JNum (expiresAt url))])
        ''RedirectHandler'' (snd (isUrlExpired url w)))"
    using effect_expired [of code urls url w P c st] by (simp add: isUrlExpired_fst)
  show "terminal_state (fst (RedirectHandler_effect P urls param c st w)) = Some Expired"
    unfolding eq by (simp add: terminal_state_def)
  show "fst (snd (RedirectHandler_effect P urls param c st w)) = st"
    unfolding eq by simp
  show "localStorage (snd (snd (RedirectHandler_effect P urls param c st w))) ''shortened-urls'' =
        localStorage w ''shortened-urls''"
    unfolding eq by (simp add: logger_frame isUrlExpired_storage)
qed

theorem resolver_failures_witness:
  "findUrlByShortCode [demo_url ''abc'' True 0] ''abc'' = Some (demo_url ''abc'' True 0) \<and>
   expiresAt (demo_url ''abc'' True 0) < fst (Date_now demo_world) \<and>
   terminal_state (fst (RedirectHandler_effect demo_platform [demo_url ''abc'' True 0] (Some ''abc'')
      \<lparr>redirecting = True, error = [], countdown = 3, countdownInterval = None\<rparr>
      [demo_url ''abc'' True 0] demo_world)) = Some Expired \<and>
   fst (snd (RedirectHandler_effect demo_platform [demo_url ''abc'' True 0] (Some ''abc'')
      \<lparr>redirecting = True, error = [], countdown = 3, countdownInterval = None\<rparr>
      [demo_url ''abc'' True 0] demo_world)) = [demo_url ''abc'' True 0] \<and>
   terminal_state (fst (RedirectHandler_effect demo_platform [demo_url ''abc'' True 0] (Some ''xyz'')
      \<lparr>redirecting = True, error = [], countdown = 3, countdownInterval = None\<rparr>
      [demo_url ''abc'' True 0] demo_world)) = Some NotFound"
  using resolver_failures [of "Some ''abc''" "''abc''" "[demo_url ''abc'' True 0]" demo_platform
      "\<lparr>redirecting = True, error = [], countdown = 3, countdownInterval = None\<rparr>"
      "[demo_url ''abc'' True 0]" demo_world "demo_url ''abc'' True 0"]
    resolver_failures [of "Some ''xyz''" "''xyz''" "[demo_url ''abc'' True 0]" demo_platform
      "\<lparr>redirecting = True, error = [], countdown = 3, countdownInterval = None\<rparr>"
      "[demo_url ''abc'' True 0]" demo_world "demo_url ''abc'' True 0"]
  by (simp add: findUrlByShortCode_def demo_url_def isUrlExpired_def Date_now_def demo_world_def
      split_def)

section \<open>The submission validator\<close>

lemma validate_fold_flag:
  "snd (foldl (validate_step P urls) acc zs) =
     (snd acc \<or> (\<exists>z \<in> set zs. validateForm P urls (snd z) (fst z) \<noteq> []))"
  by (induction zs arbitrary: acc) (auto simp: validate_step_def Let_def)

lemma flag_fold_flag:
  "snd (foldl flag_duplicate acc ds) = (snd acc \<or> ds \<noteq> [])"
  by (induction ds arbitrary: acc) (auto simp: flag_duplicate_def Let_def)

lemma validateAllForms_valid:
  "fst (validateAllForms P urls fs) =
     ((\<forall>z \<in> set (zip fs [0..<length fs]). validateForm P urls (snd z) (fst z) = []) \<and>
      duplicates_of (shortCodes_of fs) = [])"
  by (auto simp: validateAllForms_def Let_def flag_fold_flag validate_fold_flag)

lemma validate_step_pair:
  "validate_step P urls acc (f, i) =
     (if validateForm P urls i f \<noteq> []
      then (AList.update i (validateForm P urls i f) (fst acc), True) else acc)"
  by (simp add: validate_step_def Let_def)

lemma validate_fold_map_of:
  "map_of (fst (foldl (validate_step P urls) ([], False) (zip fs [0..<length fs]))) k =
     (if k < length fs \<and> validateForm P urls k (fs ! k) \<noteq> []
      then Some (validateForm P urls k (fs ! k)) else None)"
proof (induction fs rule: rev_induct)
  case Nil
  then show ?case by simp
next
  case (snoc f fs)
  have z: "zip (fs @ [f]) [0..<length (fs @ [f])] = zip fs [0..<length fs] @ [(f, length fs)]"
    by simp
  show ?case
    unfolding z foldl_append
    using snoc.IH
    by (auto simp: validate_step_pair update_conv' nth_append less_Suc_eq)
qed

lemma flag_duplicate_other_field:
  "field \<noteq> ''customShortCode'' \<Longrightarrow>
   field_error (fst (flag_duplicate acc d)) k field = field_error (fst acc) k field"
  by (auto simp: field_error_def flag_duplicate_def Let_def update_conv' split: option.splits)

lemma flag_fold_other_field:
  "field \<noteq> ''customShortCode'' \<Longrightarrow>
   field_error (fst (foldl flag_duplicate acc ds)) k field = field_error (fst acc) k field"
  by (induction ds arbitrary: acc) (simp_all add: flag_duplicate_other_field)

lemma flag_duplicate_sets:
  "field_error (fst (flag_duplicate acc d)) (snd d) ''customShortCode'' =
     Some ''Duplicate shortcode in current forms''"
  by (simp add: field_error_def flag_duplicate_def Let_def update_conv')

lemma flag_duplicate_keeps:
  "field_error (fst acc) k ''customShortCode'' = Some ''Duplicate shortcode in current forms'' \<Longrightarrow>
   field_error (fst (flag_duplicate acc d)) k ''customShortCode'' =
     Some ''Duplicate shortcode in current forms''"
  by (auto simp: field_error_def flag_duplicate_def Let_def update_conv' split: option.splits)

lemma flag_fold_keeps:
  "field_error (fst acc) k ''customShortCode'' = Some ''Duplicate shortcode in current forms'' \<Longrightarrow>
   field_error (fst (foldl flag_duplicate acc ds)) k ''customShortCode'' =
     Some ''Duplicate shortcode in current forms''"
  by (induction ds arbitrary: acc) (simp_all add: flag_duplicate_keeps)

lemma flag_fold_sets:
  "d \<in> set ds \<Longrightarrow>
   field_error (fst (foldl flag_duplicate acc ds)) (snd d) ''customShortCode'' =
     Some ''Duplicate shortcode in current forms''"
proof (induction ds arbitrary: acc)
  case Nil
  then show ?case by simp
next
  case (Cons x xs)
  show ?case
  proof (cases "d = x")
    case True
    then show ?thesis by (simp add: flag_fold_keeps flag_duplicate_sets)
  next
    case False
    with Cons.prems have "d \<in> set xs" by simp
    then show ?thesis using Cons.IH by simp
  qed
qed

lemma findIndex_le:
  "k < length xs \<Longrightarrow> p (xs ! k) \<Longrightarrow> 0 \<le> findIndex p xs \<and> findIndex p xs \<le> int k"
proof (induction xs arbitrary: k)
  case Nil
  then show ?case by simp
next
  case (Cons x xs)
  show ?case
  proof (cases "p x")
    case True
    then show ?thesis by simp
  next
    case False
    with Cons.prems obtain k' where k': "k = Suc k'" by (cases k) auto
    with Cons.prems have "k' < length xs" "p (xs ! k')" by auto
    from Cons.IH [OF this] show ?thesis using False k' by (simp add: Let_def)
  qed
qed

lemma shortCodes_sorted:
  "sorted_wrt (\<lambda>a b. snd a < snd b) (shortCodes_of fs)"
proof -
  have "map snd (map (\<lambda>(form, index). (trim (customShortCode form), index))
          (zip fs [0..<length fs])) = [0..<length fs]"
    by (simp add: split_def comp_def)
  then have "sorted_wrt (<) (map snd (map (\<lambda>(form, index). (trim (customShortCode form), index))
          (zip fs [0..<length fs])))"
    by (simp only: sorted_wrt_upt)
  then have "sorted_wrt (\<lambda>a b. snd a < snd b)
       (map (\<lambda>(form, index). (trim (customShortCode form), index)) (zip fs [0..<length fs]))"
    by (simp only: sorted_wrt_map)
  then show ?thesis
    unfolding shortCodes_of_def by (rule sorted_wrt_filter)
qed

lemma shortCodes_member:
  assumes "k < length fs" "trim (customShortCode (fs ! k)) \<noteq> []"
  shows "(trim (customShortCode (fs ! k)), k) \<in> set (shortCodes_of fs)"
proof -
  have "(fs ! k, k) \<in> set (zip fs [0..<length fs])"
    using assms(1) by (auto simp: in_set_zip intro!: exI [of _ k])
  then have "(\<lambda>(form, index). (trim (customShortCode form), index)) (fs ! k, k)
       \<in> set (map (\<lambda>(form, index). (trim (customShortCode form), index)) (zip fs [0..<length fs]))"
    by (simp only: set_map) (rule imageI)
  then show ?thesis using assms(2) by (simp add: shortCodes_of_def)
qed

lemma later_in_duplicates:
  assumes "sorted_wrt (\<lambda>a b. snd a < snd b) sc"
    and "(t, i) \<in> set sc" "(t, j) \<in> set sc" "i < j"
  shows "(t, j) \<in> set (duplicates_of sc)"
proof -
  obtain pi where pi: "pi < length sc" "sc ! pi = (t, i)"
    using assms(2) by (auto simp: in_set_conv_nth)
  obtain pj where pj: "pj < length sc" "sc ! pj = (t, j)"
    using assms(3) by (auto simp: in_set_conv_nth)
  have "pi < pj"
  proof (rule ccontr)
    assume "\<not> pi < pj"
    then consider "pi = pj" | "pj < pi" by linarith
    then show False
    proof cases
      case 1
      then show False using pi pj assms(4) by simp
    next
      case 2
      then have "snd (sc ! pj) < snd (sc ! pi)"
        using assms(1) pi(1) by (simp add: sorted_wrt_iff_nth_less)
      then show False using pi pj assms(4) by simp
    qed
  qed
  have "findIndex (\<lambda>other. fst other = t) sc \<le> int pi"
    using findIndex_le [of pi sc "\<lambda>other. fst other = t"] pi by simp
  then have ne: "findIndex (\<lambda>other. fst other = fst (sc ! pj)) sc \<noteq> int pj"
    using \<open>pi < pj\<close> pj by simp
  have "(sc ! pj, pj) \<in> set (zip sc [0..<length sc])"
    using pj(1) by (auto simp: in_set_zip intro!: exI [of _ pj])
  then have "(sc ! pj, pj) \<in> set (filter (\<lambda>(item, index).
       findIndex (\<lambda>other. fst other = fst item) sc \<noteq> int index) (zip sc [0..<length sc]))"
    using ne by simp
  then have "fst (sc ! pj, pj) \<in> set (duplicates_of sc)"
    unfolding duplicates_of_def set_map by (rule imageI)
  then show ?thesis using pj by simp
qed

lemma handleSubmit_invalid:
  assumes "\<not> fst (validateAllForms P urls (forms c))"
  shows "fst (snd (handleSubmit P urls c st w)) = st"
    and "localStorage (snd (snd (handleSubmit P urls c st w))) ''shortened-urls'' =
           localStorage w ''shortened-urls''"
    and "errors (fst (handleSubmit P urls c st w)) = snd (validateAllForms P urls (forms c))"
  using assms by (simp_all add: handleSubmit_def split_def Let_def logger_frame)

lemma findIndex_sat:
  "0 \<le> findIndex p xs \<Longrightarrow>
   nat (findIndex p xs) < length xs \<and> p (xs ! nat (findIndex p xs))"
proof (induction xs)
  case Nil
  then show ?case by simp
next
  case (Cons x xs)
  show ?case
  proof (cases "p x")
    case True
    then show ?thesis by simp
  next
    case False
    with Cons.prems have nn: "0 \<le> findIndex p xs"
      by (simp add: Let_def split: if_splits)
    from Cons.IH [OF nn] show ?thesis
      using False nn by (simp add: Let_def nat_add_distrib)
  qed
qed

lemma shortCodes_member_iff:
  "((x, k) \<in> set (shortCodes_of fs)) =
     (k < length fs \<and> x = trim (customShortCode (fs ! k)) \<and> x \<noteq> [])"
proof
  assume "(x, k) \<in> set (shortCodes_of fs)"
  then show "k < length fs \<and> x = trim (customShortCode (fs ! k)) \<and> x \<noteq> []"
    by (auto simp: shortCodes_of_def in_set_zip)
next
  assume "k < length fs \<and> x = trim (customShortCode (fs ! k)) \<and> x \<noteq> []"
  then show "(x, k) \<in> set (shortCodes_of fs)"
    using shortCodes_member [of k fs] by blast
qed

lemma duplicates_have_earlier:
  assumes "sorted_wrt (\<lambda>a b. snd a < snd b) sc" "(x, i) \<in> set (duplicates_of sc)"
  shows "\<exists>i' < i. (x, i') \<in> set sc"
proof -
  from assms(2) obtain p where p: "p < length sc" "sc ! p = (x, i)"
    "findIndex (\<lambda>other. fst other = x) sc \<noteq> int p"
    by (auto simp: duplicates_of_def in_set_zip)
  let ?q = "findIndex (\<lambda>other. fst other = x) sc"
  have le: "0 \<le> ?q \<and> ?q \<le> int p"
    using findIndex_le [of p sc "\<lambda>other. fst other = x"] p by simp
  then have lt: "nat ?q < p" using p(3) by linarith
  have sat: "fst (sc ! nat ?q) = x"
    using findIndex_sat [of "\<lambda>other. fst other = x" sc] le by simp
  have "snd (sc ! nat ?q) < snd (sc ! p)"
    using assms(1) lt p(1) by (simp add: sorted_wrt_iff_nth_less)
  then have "snd (sc ! nat ?q) < i" using p(2) by simp
  moreover have "sc ! nat ?q \<in> set sc" using lt p(1) by simp
  then have "(x, snd (sc ! nat ?q)) \<in> set sc" using sat by (metis prod.collapse)
  ultimately show ?thesis by blast
qed

lemma flag_duplicate_other_index:
  "snd d \<noteq> k \<Longrightarrow> field_error (fst (flag_duplicate acc d)) k field = field_error (fst acc) k field"
  by (simp add: field_error_def flag_duplicate_def Let_def update_conv')

lemma flag_fold_other_index:
  "\<forall>d \<in> set ds. snd d \<noteq> k \<Longrightarrow>
   field_error (fst (foldl flag_duplicate acc ds)) k field = field_error (fst acc) k field"
  by (induction ds arbitrary: acc) (simp_all add: flag_duplicate_other_index)

lemma validate_fold_field_error:
  "field_error (fst (foldl (validate_step P urls) ([], False) (zip fs [0..<length fs]))) k field =
     (if k < length fs then map_of (validateForm P urls k (fs ! k)) field else None)"
  by (simp add: field_error_def validate_fold_map_of)

lemma validateAllForms_other_field:
  "field \<noteq> ''customShortCode'' \<Longrightarrow>
   field_error (snd (validateAllForms P urls fs)) k field =
     (if k < length fs then map_of (validateForm P urls k (fs ! k)) field else None)"
  by (simp add: validateAllForms_def Let_def flag_fold_other_field validate_fold_field_error)

lemma validateForm_validityMinutes:
  "map_of (validateForm P urls index form) ''validityMinutes'' =
     (if form_validityMinutes form < 1 \<or> 43200 < form_validityMinutes form
      then Some ''Validity must be between 1 and 43200 minutes'' else None)"
  by (simp add: validateForm_def Let_def update_conv')

lemma validateForm_never_duplicate:
  "map_of (validateForm P urls index form) ''customShortCode'' \<noteq>
     Some ''Duplicate shortcode in current forms''"
  by (simp add: validateForm_def Let_def update_conv')

lemma validateForm_nonempty:
  "map_of (validateForm P urls index form) field = Some m \<Longrightarrow>
   validateForm P urls index form \<noteq> []"
  by auto

lemma duplicates_subset: "set (duplicates_of sc) \<subseteq> set sc"
  by (auto simp: duplicates_of_def dest: set_zip_leftD)

text \<open>
  C1, as the code has it. When two requests of a batch have the same custom short code,
  not empty once trimmed, the later one is flagged with the duplicate error on
  \<open>customShortCode\<close>, the validation fails, the error object becomes the one of the
  validation, and no record is committed: the state and the stored collection are the
  ones before. A request that no earlier request of the batch shares its trimmed code
  with keeps on \<open>customShortCode\<close> what its own validation gave it, which is never the
  duplicate error.
\<close>

theorem later_duplicates_flagged:
  "(i < j \<and> j < length (forms c) \<and>
    trim (customShortCode (forms c ! i)) = trim (customShortCode (forms c ! j)) \<and>
    trim (customShortCode (forms c ! j)) \<noteq> [] \<longrightarrow>
      field_error (snd (validateAllForms P urls (forms c))) j ''customShortCode'' =
        Some ''Duplicate shortcode in current forms'' \<and>
      \<not> fst (validateAllForms P urls (forms c)) \<and>
      errors (fst (handleSubmit P urls c st w)) = snd (validateAllForms P urls (forms c)) \<and>
      fst (snd (handleSubmit P urls c st w)) = st \<and>
      localStorage (snd (snd (handleSubmit P urls c st w))) ''shortened-urls'' =
        localStorage w ''shortened-urls'') \<and>
   (j < length (forms c) \<and>
    (\<forall>k < j. trim (customShortCode (forms c ! k)) \<noteq> trim (customShortCode (forms c ! j))) \<longrightarrow>
      field_error (snd (validateAllForms P urls (forms c))) j ''customShortCode'' =
        map_of (validateForm P urls j (forms c ! j)) ''customShortCode'' \<and>
      field_error (snd (validateAllForms P urls (forms c))) j ''customShortCode'' \<noteq>
        Some ''Duplicate shortcode in current forms'')"
proof (intro conjI impI)
  let ?fs = "forms c"
  let ?sc = "shortCodes_of ?fs"
  assume a: "i < j \<and> j < length ?fs \<and>
    trim (customShortCode (?fs ! i)) = trim (customShortCode (?fs ! j)) \<and>
    trim (customShortCode (?fs ! j)) \<noteq> []"
  let ?t = "trim (customShortCode (?fs ! j))"
  have mi: "(?t, i) \<in> set ?sc" using a by (simp add: shortCodes_member_iff)
  have mj: "(?t, j) \<in> set ?sc" using a by (simp add: shortCodes_member_iff)
  have dup: "(?t, j) \<in> set (duplicates_of ?sc)"
    using later_in_duplicates [OF shortCodes_sorted mi mj] a by simp
  show "field_error (snd (validateAllForms P urls ?fs)) j ''customShortCode'' =
        Some ''Duplicate shortcode in current forms''"
    using flag_fold_sets [OF dup] by (simp add: validateAllForms_def Let_def)
  have "duplicates_of ?sc \<noteq> []" using dup by auto
  then show invalid: "\<not> fst (validateAllForms P urls ?fs)"
    by (simp add: validateAllForms_valid)
  show "errors (fst (handleSubmit P urls c st w)) = snd (validateAllForms P urls ?fs)"
    using invalid by (rule handleSubmit_invalid)
  show "fst (snd (handleSubmit P urls c st w)) = st"
    using invalid by (rule handleSubmit_invalid)
  show "localStorage (snd (snd (handleSubmit P urls c st w))) ''shortened-urls'' =
        localStorage w ''shortened-urls''"
    using invalid by (rule handleSubmit_invalid)
next
  let ?fs = "forms c"
  let ?sc = "shortCodes_of ?fs"
  assume b: "j < length ?fs \<and>
    (\<forall>k < j. trim (customShortCode (?fs ! k)) \<noteq> trim (customShortCode (?fs ! j)))"
  have none: "\<forall>d \<in> set (duplicates_of ?sc). snd d \<noteq> j"
  proof
    fix d assume d: "d \<in> set (duplicates_of ?sc)"
    show "snd d \<noteq> j"
    proof
      assume "snd d = j"
      then have dj: "(fst d, j) \<in> set (duplicates_of ?sc)" using d by (metis prod.collapse)
      then obtain i' where i': "i' < j" "(fst d, i') \<in> set ?sc"
        using duplicates_have_earlier [OF shortCodes_sorted dj] by blast
      have "(fst d, j) \<in> set ?sc"
        using dj duplicates_subset by blast
      then have "fst d = trim (customShortCode (?fs ! j))"
        by (simp add: shortCodes_member_iff)
      moreover have "fst d = trim (customShortCode (?fs ! i'))"
        using i'(2) by (simp add: shortCodes_member_iff)
      ultimately show False using b i'(1) by auto
    qed
  qed
  show eq: "field_error (snd (validateAllForms P urls ?fs)) j ''customShortCode'' =
        map_of (validateForm P urls j (?fs ! j)) ''customShortCode''"
    using b by (simp add: validateAllForms_def Let_def flag_fold_other_index [OF none]
        validate_fold_field_error)
  show "field_error (snd (validateAllForms P urls ?fs)) j ''customShortCode'' \<noteq>
        Some ''Duplicate shortcode in current forms''"
    unfolding eq by (rule validateForm_never_duplicate)
qed

theorem later_duplicates_flagged_witness:
  "(0::nat) < 1 \<and> 1 < length (forms duplicate_batch) \<and>
   trim (customShortCode (forms duplicate_batch ! 0)) =
     trim (customShortCode (forms duplicate_batch ! 1)) \<and>
   trim (customShortCode (forms duplicate_batch ! 1)) = ''abc123'' \<and>
   field_error (snd (validateAllForms demo_platform [] (forms duplicate_batch))) 1
     ''customShortCode'' = Some ''Duplicate shortcode in current forms'' \<and>
   fst (snd (handleSubmit demo_platform [] duplicate_batch [] demo_world)) = []"
proof -
  have h: "(0::nat) < 1 \<and> 1 < length (forms duplicate_batch) \<and>
   trim (customShortCode (forms duplicate_batch ! 0)) =
     trim (customShortCode (forms duplicate_batch ! 1)) \<and>
   trim (customShortCode (forms duplicate_batch ! 1)) = ''abc123''"
    by code_simp
  then have "trim (customShortCode (forms duplicate_batch ! 1)) \<noteq> []" by simp
  with h later_duplicates_flagged [of 0 1 duplicate_batch demo_platform "[]" "[]" demo_world]
  show ?thesis by blast
qed

text \<open>
  The claim C1 as it is written fails on its own scenario: of two requests with the
  custom short code \<open>abc123\<close>, the first has no error on \<open>customShortCode\<close>.
\<close>

theorem first_duplicate_not_flagged_counterexample:
  "customShortCode (forms duplicate_batch ! 0) = ''abc123'' \<and>
   customShortCode (forms duplicate_batch ! 1) = ''abc123'' \<and>
   field_error (snd (validateAllForms demo_platform [] (forms duplicate_batch))) 0
     ''customShortCode'' = None"
  by code_simp

section \<open>The states of the form\<close>

lemma handleSubmit_forms:
  "forms (fst (handleSubmit P urls c st w)) = forms c \<or>
   forms (fst (handleSubmit P urls c st w)) =
     [\<lparr>form_originalUrl = [], customShortCode = [], form_validityMinutes = 30\<rparr>]"
  by (simp add: handleSubmit_def split_def Let_def)

lemma updateForm_forms:
  "forms (updateForm index field c) = (forms c)[index := set_field field (forms c ! index)]"
  by (simp add: updateForm_def Let_def split: option.splits)

lemma removeForm_forms:
  "set (forms (fst (removeForm P index c w))) \<subseteq> set (forms c)"
  by (auto simp: removeForm_def Let_def dest: set_zip_leftD)

lemma parsed_validity_integral:
  "(case parseInt P v of None \<Rightarrow> (30 :: rat) | Some n \<Rightarrow> if n = 0 then 30 else of_int n) \<in> \<int>"
  by (simp split: option.splits)

lemma form_states_integral:
  "c \<in> form_states P \<Longrightarrow> \<forall>form \<in> set (forms c). form_validityMinutes form \<in> \<int>"
proof (induction rule: form_states.induct)
  case started
  show ?case by (simp add: initial_form_state_def)
next
  case (added c w)
  then show ?case by (simp add: addForm_def)
next
  case (removed c index w)
  then show ?case using removeForm_forms [of P index c w] by blast
next
  case (url_changed c index v)
  show ?case
  proof
    fix form assume "form \<in> set (forms (originalUrl_onChange index v c))"
    then have "form \<in> insert (set_field (OriginalUrl v) (forms c ! index)) (set (forms c))"
      using set_update_subset_insert [of "forms c" index]
      by (auto simp: originalUrl_onChange_def updateForm_forms)
    then show "form_validityMinutes form \<in> \<int>"
      using url_changed by auto
  qed
next
  case (code_changed c index v)
  show ?case
  proof
    fix form assume "form \<in> set (forms (customShortCode_onChange index v c))"
    then have "form \<in> insert (set_field (CustomShortCode v) (forms c ! index)) (set (forms c))"
      using set_update_subset_insert [of "forms c" index]
      by (auto simp: customShortCode_onChange_def updateForm_forms)
    then show "form_validityMinutes form \<in> \<int>"
      using code_changed by auto
  qed
next
  case (validity_changed c index v)
  let ?n = "case parseInt P v of None \<Rightarrow> (30 :: rat) | Some n \<Rightarrow> if n = 0 then 30 else of_int n"
  show ?case
  proof
    fix form assume "form \<in> set (forms (validityMinutes_onChange P index v c))"
    then have "form \<in> insert (set_field (ValidityMinutes ?n) (forms c ! index)) (set (forms c))"
      using set_update_subset_insert [of "forms c" index]
      by (auto simp: validityMinutes_onChange_def updateForm_forms)
    then show "form_validityMinutes form \<in> \<int>"
      using validity_changed parsed_validity_integral [of P v] by auto
  qed
next
  case (submitted c shortenedUrls st w)
  then show ?case using handleSubmit_forms [of P shortenedUrls c st w] by auto
qed

lemma integral_range:
  fixes v :: rat
  assumes "v \<in> \<int>"
  shows "(v < 1 \<or> 43200 < v) = (v \<notin> of_int ` {1..43200 :: int})"
proof -
  from assms obtain z :: int where v: "v = of_int z" by (rule Ints_cases)
  have "((of_int z :: rat) \<in> of_int ` {1..43200 :: int}) = (z \<in> {1..43200})"
    by (auto simp: image_iff)
  then show ?thesis unfolding v by auto
qed

lemma validateForm_integral:
  "form_validityMinutes form \<in> \<int> \<Longrightarrow>
   (map_of (validateForm P urls index form) ''validityMinutes'' \<noteq> None) =
     (form_validityMinutes form \<notin> of_int ` {1..43200 :: int})"
  using integral_range [of "form_validityMinutes form"]
  by (simp add: validateForm_validityMinutes)

lemma overlong_batch_state: "overlong_batch \<in> form_states demo_platform"
proof -
  have 1: "originalUrl_onChange 0 ''https://a.example'' initial_form_state
             \<in> form_states demo_platform"
    by (rule form_states.url_changed [OF form_states.started])
      (simp add: initial_form_state_def)
  have 2: "0 < length (forms (originalUrl_onChange 0 ''https://a.example'' initial_form_state))"
    by (simp add: originalUrl_onChange_def updateForm_forms initial_form_state_def)
  show ?thesis
    unfolding overlong_batch_def by (rule form_states.validity_changed [OF 1 2])
qed

text \<open>
  C3. In every state of the component the validity of a request is an integer, since
  the field is written by \<open>parseInt(e.target.value) || 30\<close> and the literal 30 only. The
  validation of a request puts an error on \<open>validityMinutes\<close> exactly when the value is
  not an integer of 1 to 43200; a request with such a value has the error in the error
  object of the batch, the validation fails and nothing is committed.
\<close>

theorem validity_minutes_range:
  assumes "c \<in> form_states P" and "k < length (forms c)"
  shows "(form_validityMinutes form \<in> \<int> \<longrightarrow>
      (map_of (validateForm P urls index form) ''validityMinutes'' \<noteq> None) =
        (form_validityMinutes form \<notin> of_int ` {1..43200 :: int})) \<and>
    form_validityMinutes (forms c ! k) \<in> \<int> \<and>
    (field_error (snd (validateAllForms P urls (forms c))) k ''validityMinutes'' \<noteq> None) =
      (form_validityMinutes (forms c ! k) \<notin> of_int ` {1..43200 :: int}) \<and>
    (form_validityMinutes (forms c ! k) \<notin> of_int ` {1..43200 :: int} \<longrightarrow>
      field_error (snd (validateAllForms P urls (forms c))) k ''validityMinutes'' =
        Some ''Validity must be between 1 and 43200 minutes'' \<and>
      \<not> fst (validateAllForms P urls (forms c)) \<and>
      fst (snd (handleSubmit P urls c st w)) = st \<and>
      localStorage (snd (snd (handleSubmit P urls c st w))) ''shortened-urls'' =
        localStorage w ''shortened-urls'')"
proof -
  let ?fs = "forms c"
  let ?v = "form_validityMinutes (?fs ! k)"
  have int: "?v \<in> \<int>"
    using form_states_integral [OF assms(1)] assms(2) by simp
  have fe: "field_error (snd (validateAllForms P urls ?fs)) k ''validityMinutes'' =
      map_of (validateForm P urls k (?fs ! k)) ''validityMinutes''"
    using assms(2) by (simp add: validateAllForms_other_field)
  have iff: "(field_error (snd (validateAllForms P urls ?fs)) k ''validityMinutes'' \<noteq> None) =
      (?v \<notin> of_int ` {1..43200 :: int})"
    unfolding fe using int by (rule validateForm_integral)
  have out: "?v \<notin> of_int ` {1..43200 :: int} \<longrightarrow>
      field_error (snd (validateAllForms P urls ?fs)) k ''validityMinutes'' =
        Some ''Validity must be between 1 and 43200 minutes'' \<and>
      \<not> fst (validateAllForms P urls ?fs) \<and>
      fst (snd (handleSubmit P urls c st w)) = st \<and>
      localStorage (snd (snd (handleSubmit P urls c st w))) ''shortened-urls'' =
        localStorage w ''shortened-urls''"
  proof
    assume "?v \<notin> of_int ` {1..43200 :: int}"
    then have range: "?v < 1 \<or> 43200 < ?v"
      using integral_range [OF int] by simp
    then have m: "map_of (validateForm P urls k (?fs ! k)) ''validityMinutes'' =
        Some ''Validity must be between 1 and 43200 minutes''"
      by (simp add: validateForm_validityMinutes)
    have ne: "validateForm P urls k (?fs ! k) \<noteq> []"
      using m by (rule validateForm_nonempty)
    have "(?fs ! k, k) \<in> set (zip ?fs [0..<length ?fs])"
      using assms(2) by (auto simp: in_set_zip intro!: exI [of _ k])
    with ne have invalid: "\<not> fst (validateAllForms P urls ?fs)"
      unfolding validateAllForms_valid by force
    show "field_error (snd (validateAllForms P urls ?fs)) k ''validityMinutes'' =
        Some ''Validity must be between 1 and 43200 minutes'' \<and>
      \<not> fst (validateAllForms P urls ?fs) \<and>
      fst (snd (handleSubmit P urls c st w)) = st \<and>
      localStorage (snd (snd (handleSubmit P urls c st w))) ''shortened-urls'' =
        localStorage w ''shortened-urls''"
      using fe m invalid handleSubmit_invalid(1,2) [OF invalid] by simp
  qed
  have gen: "form_validityMinutes form \<in> \<int> \<longrightarrow>
      (map_of (validateForm P urls index form) ''validityMinutes'' \<noteq> None) =
        (form_validityMinutes form \<notin> of_int ` {1..43200 :: int})"
    by (rule impI) (rule validateForm_integral)
  from gen int iff out show ?thesis by blast
qed

theorem validity_minutes_range_witness:
  "overlong_batch \<in> form_states demo_platform \<and>
   (0::nat) < length (forms overlong_batch) \<and>
   form_validityMinutes (forms overlong_batch ! 0) = 43201 \<and>
   field_error (snd (validateAllForms demo_platform [] (forms overlong_batch))) 0
     ''validityMinutes'' = Some ''Validity must be between 1 and 43200 minutes'' \<and>
   \<not> fst (validateAllForms demo_platform [] (forms overlong_batch)) \<and>
   fst (snd (handleSubmit demo_platform [] overlong_batch [] demo_world)) = [] \<and>
   map_of (validateForm demo_platform [] 0 (demo_form ''https://a.example'' [] 43200))
     ''validityMinutes'' = None"
proof -
  have h: "(0::nat) < length (forms overlong_batch)"
    by code_simp
  have v: "form_validityMinutes (forms overlong_batch ! 0) = 43201"
    by code_simp
  have out: "form_validityMinutes (forms overlong_batch ! 0) \<notin> of_int ` {1..43200 :: int}"
    unfolding v using integral_range [of "43201 :: rat"] by simp
  have a: "form_validityMinutes (demo_form ''https://a.example'' [] 43200) \<in> \<int>"
    by (simp add: demo_form_def)
  have b: "form_validityMinutes (demo_form ''https://a.example'' [] 43200)
             \<in> of_int ` {1..43200 :: int}"
    using integral_range [of "43200 :: rat"] by (simp add: demo_form_def)
  from validity_minutes_range [OF overlong_batch_state h,
      of "demo_form ''https://a.example'' [] 43200" "[]" 0 "[]" demo_world]
    out v h a b overlong_batch_state
  show ?thesis by blast
qed

end
